theory Spec2Isabelle
  imports Complex_Main
begin

section \<open>Scroll positions (takeScreenshotsOfPage, lines 56--73 of index.js)\<close>

text \<open>
  Pixel quantities (the measured page height, the viewport height, the overlap and the
  scroll positions) are JavaScript numbers holding integers; they are modelled as
  \<^typ>\<open>int\<close>. The one non-integral quantity of the computation is \<open>overlap / 2\<close>, which is
  taken in \<^typ>\<open>rat\<close>.

  The loop of the source
  \<^verbatim>\<open>
  while (true) {
    positions.push(currentPos);
    currentPos += (viewportHeight - overlap);
    if (currentPos + viewportHeight > fullHeight) { break; }
  }
  \<close>
  has no other exit than the \<open>break\<close>, so it is a partial function: \<open>None\<close> is the
  run in which the \<open>break\<close> is never reached. Arrays are taken to hold any finite number
  of positions, so a loop that reaches its \<open>break\<close> returns them; in a run that never
  reaches it the array grows by one element a round until \<open>push\<close> throws a
  \<open>RangeError\<close> (see takeScreenshotsOfPage below).
\<close>

partial_function (option) collect_positions ::
  "int \<Rightarrow> int \<Rightarrow> int \<Rightarrow> int list \<Rightarrow> int \<Rightarrow> int list option" where
  "collect_positions viewportHeight overlap fullHeight positions currentPos =
     (if currentPos + (viewportHeight - overlap) + viewportHeight > fullHeight
      then Some (positions @ [currentPos])
      else collect_positions viewportHeight overlap fullHeight
             (positions @ [currentPos]) (currentPos + (viewportHeight - overlap)))"

declare collect_positions.simps [code]

text \<open>
  \<^verbatim>\<open>
  const finalPos = Math.max(0, fullHeight - viewportHeight);
  if (finalPos > positions[positions.length - 1] + overlap / 2) {
    positions.push(finalPos);
  }
  \<close>
  On an empty array \<open>positions[-1]\<close> is \<open>undefined\<close>, the sum is \<open>NaN\<close> and the
  comparison is false; the loop never returns an empty array, the branch is kept for
  completeness.
\<close>

definition snap_to_bottom :: "int \<Rightarrow> int \<Rightarrow> int \<Rightarrow> int list \<Rightarrow> int list" where
  "snap_to_bottom viewportHeight overlap fullHeight positions =
     (let finalPos = max 0 (fullHeight - viewportHeight) in
      if positions = [] then positions
      else if (of_int finalPos :: rat) > of_int (last positions) + of_int overlap / 2
      then positions @ [finalPos]
      else positions)"

definition scroll_positions :: "int \<Rightarrow> int \<Rightarrow> int \<Rightarrow> int list option" where
  "scroll_positions fullHeight viewportHeight overlap =
     (case collect_positions viewportHeight overlap fullHeight [] 0 of
        None \<Rightarrow> None
      | Some positions \<Rightarrow> Some (snap_to_bottom viewportHeight overlap fullHeight positions))"

section \<open>Fixed-to-absolute conversion (convertFixedElementsToAbsolute)\<close>

text \<open>
  The function runs in the page: it reads \<open>window.getComputedStyle(element).position\<close>,
  \<open>element.getBoundingClientRect()\<close> and the scroll offset, and writes the inline style
  \<open>element.style\<close>. An element carries its inline style, the declaration of \<open>position\<close>
  that its style sheets give it, the rectangle the browser reports for it, and its
  children. A declaration is \<open>!important\<close> or of normal priority. The computed position
  follows the cascade: an important inline declaration, else an important style-sheet
  declaration, else a normal inline declaration, else the style sheets' value.
\<close>

datatype css_position = Static | Relative | Absolute | Fixed | Sticky

datatype css_length = Auto | Px int

record inline_style =
  style_position :: "css_position option"
  style_position_important :: bool
  style_top :: "css_length option"
  style_left :: "css_length option"
  style_bottom :: "css_length option"
  style_right :: "css_length option"

record sheet_declaration =
  sheet_position :: css_position
  sheet_important :: bool

record client_rect =
  rect_top :: int
  rect_left :: int

datatype element =
  Element (style: inline_style) (sheet: sheet_declaration)
          (boundingClientRect: client_rect) (children: "element list")

record window =
  pageYOffset :: int
  documentElement_scrollTop :: int

definition computed_position :: "element \<Rightarrow> css_position" where
  "computed_position element =
     (case style_position (style element) of
        Some p \<Rightarrow>
          if style_position_important (style element) then p
          else if sheet_important (sheet element) then sheet_position (sheet element)
          else p
      | None \<Rightarrow> sheet_position (sheet element))"

text \<open>\<open>window.pageYOffset || document.documentElement.scrollTop\<close>: the right operand
  when the left one is 0.\<close>

definition scrollTop :: "window \<Rightarrow> int" where
  "scrollTop w = (if pageYOffset w \<noteq> 0 then pageYOffset w else documentElement_scrollTop w)"

text \<open>An assignment \<open>element.style.position = ...\<close> sets the inline declaration with normal
  priority.\<close>

fun convertToAbsolute :: "window \<Rightarrow> element \<Rightarrow> element" where
  "convertToAbsolute w (Element st sh rect cs) =
     Element
       (if computed_position (Element st sh rect cs) = Fixed
        then st\<lparr>style_position := Some Absolute,
                style_position_important := False,
                style_top := Some (Px (rect_top rect + scrollTop w)),
                style_left := Some (Px (rect_left rect)),
                style_bottom := Some Auto,
                style_right := Some Auto\<rparr>
        else st)
       sh rect (map (convertToAbsolute w) cs)"

text \<open>The browser lays the page out again after a style change or a scroll: the rectangles
  it reports change, the styles and the tree do not.\<close>

fun relayout :: "(client_rect \<Rightarrow> client_rect) \<Rightarrow> element \<Rightarrow> element" where
  "relayout f (Element st sh rect cs) = Element st sh (f rect) (map (relayout f) cs)"

fun computed_positions :: "element \<Rightarrow> css_position list" where
  "computed_positions (Element st sh rect cs) =
     computed_position (Element st sh rect cs) # concat (map computed_positions cs)"

text \<open>The style-sheet declarations of the elements of a tree, and the trees in which no
  style sheet holds an element at \<open>position: fixed\<close> with an \<open>!important\<close> declaration.\<close>

fun sheet_declarations :: "element \<Rightarrow> sheet_declaration list" where
  "sheet_declarations (Element st sh rect cs) = sh # concat (map sheet_declarations cs)"

definition fixed_important :: "sheet_declaration \<Rightarrow> bool" where
  "fixed_important sh = (sheet_important sh \<and> sheet_position sh = Fixed)"

definition convertible :: "element \<Rightarrow> bool" where
  "convertible e = list_all (\<lambda>sh. \<not> fixed_important sh) (sheet_declarations e)"

section \<open>Stitching (stitchScreenshots)\<close>

record rgba =
  red :: nat
  green :: nat
  blue :: nat
  alpha :: nat

record raster =
  width :: int
  height :: int
  pixel :: "int \<Rightarrow> int \<Rightarrow> rgba"

record screenshot =
  shot_image :: raster
  shot_position :: int

record create_options =
  create_width :: int
  create_height :: int
  channels :: nat
  background :: rgba

record composite_operation =
  input :: raster
  op_top :: int
  op_left :: int

text \<open>Modelled from the spec: the raster compositing capability (\<open>createCanvas\<close>,
  \<open>composite\<close>), which the source takes from the image library and which is not part of
  the repository. A canvas is created filled with its background; an operation paints
  its input at \<open>(left, top)\<close>, clipped to the canvas, over what is there; the operations
  are applied in list order.\<close>

definition sharp_create :: "create_options \<Rightarrow> raster" where
  "sharp_create c =
     \<lparr>width = create_width c, height = create_height c, pixel = (\<lambda>x y. background c)\<rparr>"

definition covers :: "composite_operation \<Rightarrow> int \<Rightarrow> int \<Rightarrow> bool" where
  "covers operation x y =
     (op_left operation \<le> x \<and> x < op_left operation + width (input operation)
      \<and> op_top operation \<le> y \<and> y < op_top operation + height (input operation))"

definition paint :: "raster \<Rightarrow> composite_operation \<Rightarrow> raster" where
  "paint canvas operation =
     canvas\<lparr>pixel := (\<lambda>x y.
       if 0 \<le> x \<and> x < width canvas \<and> 0 \<le> y \<and> y < height canvas \<and> covers operation x y
       then pixel (input operation) (x - op_left operation) (y - op_top operation)
       else pixel canvas x y)\<rparr>"

definition sharp_composite :: "raster \<Rightarrow> composite_operation list \<Rightarrow> raster" where
  "sharp_composite canvas operations = foldl paint canvas operations"

definition compositeOperations :: "screenshot list \<Rightarrow> composite_operation list" where
  "compositeOperations screenshots =
     map (\<lambda>shot. \<lparr>input = shot_image shot, op_top = shot_position shot, op_left = 0\<rparr>)
       screenshots"

text \<open>The encoded buffer (\<open>.png().toBuffer()\<close>) is identified with the raster it encodes.\<close>

definition stitchScreenshots :: "screenshot list \<Rightarrow> int \<Rightarrow> int \<Rightarrow> int \<Rightarrow> raster" where
  "stitchScreenshots screenshots fullHeight viewportWidth viewportHeight =
     sharp_composite
       (sharp_create \<lparr>create_width = viewportWidth, create_height = fullHeight, channels = 4,
                      background = \<lparr>red = 255, green = 255, blue = 255, alpha = 1\<rparr>\<rparr>)
       (compositeOperations screenshots)"

section \<open>The capture run (takeScreenshotsOfPage, captureFullPageScreenshot)\<close>

text \<open>
  Every awaited call to the browser or to the image library is an external call. A run
  records the calls it makes, in order; the world decides which of them reject. An error
  is the rejection of a call (the spec's NavigationError is the rejection of a \<open>Goto\<close>,
  its AuthenticationError that of \<open>Authenticate\<close>, its CaptureError that of a page
  call such as \<open>Screenshot\<close>, its StitchError that of \<open>SharpToBuffer\<close>), the
  \<open>TypeError\<close> of \<open>new URL(url)\<close>, or the \<open>RangeError\<close> of a \<open>push\<close> onto an array that
  cannot grow any more.
\<close>

datatype call =
    Launch
  | NewPage
  | Goto string
  | Authenticate "string option" "string option"
  | WaitForTimeout int
  | EvaluateConvertFixed
  | EvaluateFullHeight
  | EvaluateScrollTo int
  | Screenshot
  | SharpToBuffer
  | Close

datatype error = InvalidURL | RangeError | Rejection call nat

record world =
  urlValid :: "string \<Rightarrow> bool"
  rejects :: "call \<Rightarrow> nat \<Rightarrow> bool"
  pageHeight :: "nat \<Rightarrow> int"
  viewportShot :: "nat \<Rightarrow> raster"

text \<open>The state of a run: the calls made so far and whether the variable \<open>browser\<close> of
  captureFullPageScreenshot has been assigned.\<close>

record run_state =
  calls :: "call list"
  browser :: bool

datatype 'a outcome = Return 'a | Throw error

type_synonym 'a io = "run_state \<Rightarrow> 'a outcome \<times> run_state"

definition return_io :: "'a \<Rightarrow> 'a io" where
  "return_io v s = (Return v, s)"

definition throw_io :: "error \<Rightarrow> 'a io" where
  "throw_io e s = (Throw e, s)"

definition bind_io :: "'a io \<Rightarrow> ('a \<Rightarrow> 'b io) \<Rightarrow> 'b io" where
  "bind_io m f s =
     (case m s of
        (Return v, s') \<Rightarrow> f v s'
      | (Throw e, s') \<Rightarrow> (Throw e, s'))"

text \<open>\<open>try { m } catch (e) { handler(e) }\<close>\<close>

definition try_catch :: "'a io \<Rightarrow> (error \<Rightarrow> 'a io) \<Rightarrow> 'a io" where
  "try_catch m handler s =
     (case m s of
        (Throw e, s') \<Rightarrow> handler e s'
      | other \<Rightarrow> other)"

text \<open>\<open>try { m } finally { cleanup }\<close>: the cleanup runs after a return and after a
  throw, and an error of the cleanup replaces the outcome of \<open>m\<close>.\<close>

definition try_finally :: "'a io \<Rightarrow> unit io \<Rightarrow> 'a io" where
  "try_finally m cleanup s =
     (case m s of
        (result, s') \<Rightarrow>
          (case cleanup s' of
             (Return u, s'') \<Rightarrow> (result, s'')
           | (Throw e, s'') \<Rightarrow> (Throw e, s'')))"

text \<open>\<open>promise.catch(console.error)\<close>: a rejection is logged and the promise resolves.\<close>

definition catch_console_error :: "unit io \<Rightarrow> unit io" where
  "catch_console_error m s =
     (case m s of
        (Throw e, s') \<Rightarrow> (Return (), s')
      | other \<Rightarrow> other)"

text \<open>An awaited external call: it is recorded, and rejects when the world says that this
  occurrence of it does.\<close>

definition perform :: "world \<Rightarrow> call \<Rightarrow> unit io" where
  "perform w c s =
     (let k = count_list (calls s) c; s' = s\<lparr>calls := calls s @ [c]\<rparr>
      in if rejects w c k then (Throw (Rejection c k), s') else (Return (), s'))"

definition evaluate_fullHeight :: "world \<Rightarrow> int io" where
  "evaluate_fullHeight w s =
     bind_io (perform w EvaluateFullHeight)
       (\<lambda>_. return_io (pageHeight w (count_list (calls s) EvaluateFullHeight))) s"

definition page_screenshot :: "world \<Rightarrow> raster io" where
  "page_screenshot w s =
     bind_io (perform w Screenshot)
       (\<lambda>_. return_io (viewportShot w (count_list (calls s) Screenshot))) s"

text \<open>The loop \<open>for (const scrollPos of positions)\<close> of takeScreenshotsOfPage.\<close>

fun capture_tiles :: "world \<Rightarrow> int list \<Rightarrow> nat \<Rightarrow> screenshot list \<Rightarrow> screenshot list io" where
  "capture_tiles w [] counter screenshots = return_io screenshots"
| "capture_tiles w (scrollPos # rest) counter screenshots =
     bind_io (perform w (EvaluateScrollTo scrollPos)) (\<lambda>_.
     bind_io (perform w (WaitForTimeout (if counter = 0 then 2000 else 500))) (\<lambda>_.
     bind_io (page_screenshot w) (\<lambda>shot.
     capture_tiles w rest (counter + 1)
       (screenshots @ [\<lparr>shot_image = shot, shot_position = scrollPos\<rparr>]))))"

text \<open>The position loop runs here. When it never reaches its \<open>break\<close>, the array
  \<open>positions\<close> grows until \<open>positions.push\<close> throws a \<open>RangeError\<close>; the function is
  \<open>async\<close>, so its promise rejects with it.\<close>

definition takeScreenshotsOfPage :: "world \<Rightarrow> int \<Rightarrow> int \<Rightarrow> (screenshot list \<times> int) io" where
  "takeScreenshotsOfPage w viewportHeight overlap =
     bind_io (perform w EvaluateConvertFixed) (\<lambda>_.
     bind_io (evaluate_fullHeight w) (\<lambda>fullHeight.
     case scroll_positions fullHeight viewportHeight overlap of
       None \<Rightarrow> throw_io RangeError
     | Some positions \<Rightarrow>
         bind_io (capture_tiles w positions 0 []) (\<lambda>screenshots.
         return_io (screenshots, fullHeight))))"

definition stitch_io :: "world \<Rightarrow> screenshot list \<Rightarrow> int \<Rightarrow> int \<Rightarrow> int \<Rightarrow> raster io" where
  "stitch_io w screenshots fullHeight viewportWidth viewportHeight =
     bind_io (perform w SharpToBuffer) (\<lambda>_.
     return_io (stitchScreenshots screenshots fullHeight viewportWidth viewportHeight))"

record options =
  viewportWidth :: int
  viewportHeight :: int
  overlap :: int
  useScraperApi :: bool
  proxyUsername :: "string option"
  proxyPassword :: "string option"
  executablePathOverride :: "string option"

definition default_options :: options where
  "default_options =
     \<lparr>viewportWidth = 1366, viewportHeight = 768, overlap = 100, useScraperApi = False,
      proxyUsername = None, proxyPassword = None, executablePathOverride = None\<rparr>"

text \<open>A string option is truthy when it is defined and not empty.\<close>

definition truthy :: "string option \<Rightarrow> bool" where
  "truthy v = (case v of None \<Rightarrow> False | Some str \<Rightarrow> str \<noteq> [])"

definition processPage :: "world \<Rightarrow> options \<Rightarrow> raster io" where
  "processPage w opts =
     bind_io (perform w (WaitForTimeout 4000)) (\<lambda>_.
     bind_io (takeScreenshotsOfPage w (viewportHeight opts) (overlap opts)) (\<lambda>(screenshots, fullHeight).
     stitch_io w screenshots fullHeight (viewportWidth opts) (viewportHeight opts)))"

text \<open>\<open>browser = await puppeteer.launch(...)\<close>: the variable is assigned when the launch
  resolves.\<close>

definition launch :: "world \<Rightarrow> unit io" where
  "launch w = bind_io (perform w Launch) (\<lambda>_ s. (Return (), s\<lparr>browser := True\<rparr>))"

text \<open>The inner \<open>try { goto; processPage } catch (navigationError) { ... }\<close>.\<close>

definition navigate_and_process :: "world \<Rightarrow> string \<Rightarrow> options \<Rightarrow> raster io" where
  "navigate_and_process w url opts =
     try_catch
       (bind_io (perform w (Goto url)) (\<lambda>_. processPage w opts))
       (\<lambda>navigationError.
          if useScraperApi opts \<and> truthy (proxyUsername opts) \<and> truthy (proxyPassword opts)
          then bind_io (perform w (Authenticate (proxyUsername opts) (proxyPassword opts))) (\<lambda>_.
               bind_io (perform w (Goto url)) (\<lambda>_.
               processPage w opts))
          else throw_io navigationError)"

text \<open>The body of the outer \<open>try\<close>. Resolving the executable path is part of the
  launch; \<open>page.setDefaultNavigationTimeout\<close> and the \<open>console.error\<close> of the handler
  are synchronous, change nothing the run depends on, and are left out.\<close>

definition capture_pipeline :: "world \<Rightarrow> string \<Rightarrow> options \<Rightarrow> raster io" where
  "capture_pipeline w url opts =
     (if \<not> urlValid w url then throw_io InvalidURL
      else bind_io (launch w) (\<lambda>_.
           bind_io (perform w NewPage) (\<lambda>_.
           navigate_and_process w url opts)))"

text \<open>\<open>finally { if (browser) { await browser.close().catch(console.error); } }\<close>\<close>

definition close_browser :: "world \<Rightarrow> unit io" where
  "close_browser w s =
     (if browser s then catch_console_error (perform w Close) s else return_io () s)"

definition captureFullPageScreenshot :: "world \<Rightarrow> string \<Rightarrow> options \<Rightarrow> raster io" where
  "captureFullPageScreenshot w url opts =
     try_finally (capture_pipeline w url opts) (close_browser w)"

definition initial :: run_state where
  "initial = \<lparr>calls = [], browser = False\<rparr>"

section \<open>Notions used in the statements\<close>

text \<open>The tile of a screenshot, composited at \<open>(0, position)\<close>, covers the canvas point
  \<open>(x, y)\<close>.\<close>

definition tile_covers :: "screenshot \<Rightarrow> int \<Rightarrow> int \<Rightarrow> bool" where
  "tile_covers shot x y =
     (0 \<le> x \<and> x < width (shot_image shot)
      \<and> shot_position shot \<le> y \<and> y < shot_position shot + height (shot_image shot))"

text \<open>The last screenshot, in the order of the list, whose tile covers \<open>(x, y)\<close>.\<close>

definition top_tile :: "screenshot list \<Rightarrow> int \<Rightarrow> int \<Rightarrow> screenshot option" where
  "top_tile screenshots x y = find (\<lambda>shot. tile_covers shot x y) (rev screenshots)"

definition opaque_white :: rgba where
  "opaque_white = \<lparr>red = 255, green = 255, blue = 255, alpha = 1\<rparr>"

text \<open>The condition under which the catch block of captureFullPageScreenshot retries.\<close>

definition proxy_configured :: "options \<Rightarrow> bool" where
  "proxy_configured opts =
     (useScraperApi opts \<and> truthy (proxyUsername opts) \<and> truthy (proxyPassword opts))"

text \<open>The calls made on the loaded page and to the image library, and the runs that
  make no other call and leave \<open>browser\<close> as it is.\<close>

fun page_call :: "call \<Rightarrow> bool" where
  "page_call (WaitForTimeout ms) = True"
| "page_call EvaluateConvertFixed = True"
| "page_call EvaluateFullHeight = True"
| "page_call (EvaluateScrollTo pos) = True"
| "page_call Screenshot = True"
| "page_call SharpToBuffer = True"
| "page_call c = False"

definition page_only :: "'a io \<Rightarrow> bool" where
  "page_only m =
     (\<forall>s r s'. m s = (r, s') \<longrightarrow>
        (\<exists>cs. calls s' = calls s @ cs \<and> list_all page_call cs) \<and> browser s' = browser s)"


section \<open>Example inputs\<close>

definition plain :: "int \<Rightarrow> int \<Rightarrow> rgba \<Rightarrow> raster" where
  "plain w h c = \<lparr>width = w, height = h, pixel = (\<lambda>x y. c)\<rparr>"

definition two_tiles :: "screenshot list" where
  "two_tiles =
     [\<lparr>shot_image = plain 4 10 \<lparr>red = 1, green = 1, blue = 1, alpha = 1\<rparr>, shot_position = 0\<rparr>,
      \<lparr>shot_image = plain 4 10 \<lparr>red = 2, green = 2, blue = 2, alpha = 1\<rparr>, shot_position = 8\<rparr>]"

definition unstyled :: inline_style where
  "unstyled =
     \<lparr>style_position = None, style_position_important = False, style_top = None,
      style_left = None, style_bottom = None, style_right = None\<rparr>"

definition converted_to :: "int \<Rightarrow> int \<Rightarrow> inline_style" where
  "converted_to t l =
     \<lparr>style_position = Some Absolute, style_position_important = False,
      style_top = Some (Px t), style_left = Some (Px l),
      style_bottom = Some Auto, style_right = Some Auto\<rparr>"

text \<open>The banner of the spec: a body with one child that a style sheet fixes at the top
  of the viewport.\<close>

definition banner_page :: element where
  "banner_page =
     Element unstyled \<lparr>sheet_position = Static, sheet_important = False\<rparr>
       \<lparr>rect_top = 0, rect_left = 0\<rparr>
       [Element unstyled \<lparr>sheet_position = Fixed, sheet_important = False\<rparr>
          \<lparr>rect_top = 0, rect_left = 0\<rparr> []]"

text \<open>The same page with the rule \<open>position: fixed !important\<close>.\<close>

definition pinned_banner_page :: element where
  "pinned_banner_page =
     Element unstyled \<lparr>sheet_position = Static, sheet_important = False\<rparr>
       \<lparr>rect_top = 0, rect_left = 0\<rparr>
       [Element unstyled \<lparr>sheet_position = Fixed, sheet_important = True\<rparr>
          \<lparr>rect_top = 0, rect_left = 0\<rparr> []]"

definition scrolled_to :: "int \<Rightarrow> window" where
  "scrolled_to y = \<lparr>pageYOffset = y, documentElement_scrollTop = y\<rparr>"

definition example_url :: string where
  "example_url = ''https://example.com''"



text \<open>A page of one viewport where the first screenshot rejects.\<close>

definition first_screenshot_fails :: world where
  "first_screenshot_fails =
     \<lparr>urlValid = (\<lambda>url. url = example_url), rejects = (\<lambda>c k. c = Screenshot \<and> k = 0),
      pageHeight = (\<lambda>k. 768),
      viewportShot = (\<lambda>k. plain 1366 768 \<lparr>red = 0, green = 0, blue = 0, alpha = 1\<rparr>)\<rparr>"

definition proxy_options :: options where
  "proxy_options =
     default_options\<lparr>useScraperApi := True, proxyUsername := Some ''user'',
                     proxyPassword := Some ''key''\<rparr>"

text \<open>A browser in which every navigation rejects, and so does closing.\<close>

definition unreachable_site :: world where
  "unreachable_site =
     \<lparr>urlValid = (\<lambda>url. url = example_url),
      rejects = (\<lambda>c k. c = Goto example_url \<or> c = Close),
      pageHeight = (\<lambda>k. 768),
      viewportShot = (\<lambda>k. plain 1366 768 \<lparr>red = 0, green = 0, blue = 0, alpha = 1\<rparr>)\<rparr>"

text \<open>A browser in which only the first navigation rejects.\<close>

definition flaky_site :: world where
  "flaky_site =
     \<lparr>urlValid = (\<lambda>url. url = example_url),
      rejects = (\<lambda>c k. c = Goto example_url \<and> k = 0),
      pageHeight = (\<lambda>k. 768),
      viewportShot = (\<lambda>k. plain 1366 768 \<lparr>red = 0, green = 0, blue = 0, alpha = 1\<rparr>)\<rparr>"

text \<open>A page of one viewport in a browser where only closing rejects.\<close>

definition close_fails :: world where
  "close_fails =
     \<lparr>urlValid = (\<lambda>url. url = example_url), rejects = (\<lambda>c k. c = Close),
      pageHeight = (\<lambda>k. 768),
      viewportShot = (\<lambda>k. plain 1366 768 \<lparr>red = 0, green = 0, blue = 0, alpha = 1\<rparr>)\<rparr>"

section \<open>Properties of the scroll positions\<close>

lemma snap_threshold:
  "((of_int f :: rat) > of_int l + of_int ov / 2) = (2 * f > 2 * l + ov)"
proof -
  have "((of_int f :: rat) > of_int l + of_int ov / 2) =
        ((of_int (2 * f) :: rat) > of_int (2 * l + ov))"
    by (simp add: field_simps)
  also have "\<dots> = (2 * f > 2 * l + ov)"
    by (simp only: of_int_less_iff)
  finally show ?thesis .
qed

lemma collect_positions_returns:
  assumes step: "0 < vh - ov"
  shows "\<exists>qs. collect_positions vh ov fh ps cur = Some (ps @ cur # qs)
           \<and> (\<forall>q\<in>set qs. cur < q \<and> q + vh \<le> fh)
           \<and> sorted_wrt (<) (cur # qs)
           \<and> fh < last (cur # qs) + (vh - ov) + vh"
proof (induction "nat (fh - vh - cur)" arbitrary: ps cur rule: less_induct)
  case less
  show ?case
  proof (cases "fh < cur + (vh - ov) + vh")
    case True
    then have "collect_positions vh ov fh ps cur = Some (ps @ [cur])"
      by (subst collect_positions.simps) simp
    with True show ?thesis by simp
  next
    case False
    let ?next = "cur + (vh - ov)"
    from False step have "nat (fh - vh - ?next) < nat (fh - vh - cur)" by linarith
    from less [OF this] obtain qs where
      res: "collect_positions vh ov fh (ps @ [cur]) ?next = Some ((ps @ [cur]) @ ?next # qs)"
      and bound: "\<forall>q\<in>set qs. ?next < q \<and> q + vh \<le> fh"
      and incr: "sorted_wrt (<) (?next # qs)"
      and stop: "fh < last (?next # qs) + (vh - ov) + vh"
      by blast
    from False res have "collect_positions vh ov fh ps cur = Some (ps @ cur # ?next # qs)"
      by (subst collect_positions.simps) simp
    moreover from bound step False have "\<forall>q\<in>set (?next # qs). cur < q \<and> q + vh \<le> fh"
      by auto
    moreover from this incr have "sorted_wrt (<) (cur # ?next # qs)"
      by simp
    moreover from stop have "fh < last (cur # ?next # qs) + (vh - ov) + vh"
      by simp
    ultimately show ?thesis by blast
  qed
qed


lemma scroll_positions_shape:
  assumes "0 \<le> ov" and "ov < vh"
  shows "\<exists>qs. collect_positions vh ov fh [] 0 = Some (0 # qs)
           \<and> scroll_positions fh vh ov = Some (snap_to_bottom vh ov fh (0 # qs))
           \<and> (\<forall>q\<in>set qs. 0 < q \<and> q + vh \<le> fh)
           \<and> sorted_wrt (<) (0 # qs)"
proof -
  from assms have "0 < vh - ov" by simp
  from collect_positions_returns [OF this, of fh "[]" 0] obtain qs where
    "collect_positions vh ov fh [] 0 = Some (0 # qs)"
    "\<forall>q\<in>set qs. 0 < q \<and> q + vh \<le> fh" "sorted_wrt (<) (0 # qs)"
    by auto
  then show ?thesis by (auto simp: scroll_positions_def)
qed

lemma snap_to_bottom_cases:
  assumes "ps \<noteq> []"
  shows "snap_to_bottom vh ov fh ps =
           (if 2 * max 0 (fh - vh) > 2 * last ps + ov then ps @ [max 0 (fh - vh)] else ps)"
  using assms by (simp add: snap_to_bottom_def Let_def snap_threshold)

lemma sorted_wrt_less_snoc:
  fixes ps :: "int list"
  assumes "sorted_wrt (<) ps" and "ps \<noteq> []" and "last ps < x"
  shows "sorted_wrt (<) (ps @ [x])"
proof -
  have "p < x" if "p \<in> set ps" for p
  proof (cases "p = last ps")
    case True
    with assms(3) show ?thesis by simp
  next
    case False
    from assms(2) have ps: "ps = butlast ps @ [last ps]" by simp
    with that False have "p \<in> set (butlast ps)"
      by (metis Un_iff empty_iff insert_iff list.simps(15) set_append set_empty2)
    moreover from assms(1) ps have "sorted_wrt (<) (butlast ps @ [last ps])" by simp
    ultimately have "p < last ps" by (simp add: sorted_wrt_append)
    with assms(3) show ?thesis by simp
  qed
  with assms(1) show ?thesis by (simp add: sorted_wrt_append)
qed

lemma snap_to_bottom_plan:
  assumes "ps \<noteq> []" and "sorted_wrt (<) ps" and "0 \<le> ov"
  shows "snap_to_bottom vh ov fh ps \<noteq> []
         \<and> hd (snap_to_bottom vh ov fh ps) = hd ps
         \<and> sorted_wrt (<) (snap_to_bottom vh ov fh ps)
         \<and> 2 * fh \<le> 2 * (last (snap_to_bottom vh ov fh ps) + vh) + ov"
proof -
  define l where "l = last ps"
  define f where "f = max 0 (fh - vh)"
  have snap: "snap_to_bottom vh ov fh ps = (if 2 * f > 2 * l + ov then ps @ [f] else ps)"
    using assms(1) by (simp add: snap_to_bottom_cases l_def f_def)
  show ?thesis
  proof (cases "2 * f > 2 * l + ov")
    case True
    with assms(3) have "l < f" by linarith
    with assms(1,2) have "sorted_wrt (<) (ps @ [f])"
      by (intro sorted_wrt_less_snoc) (simp_all add: l_def)
    moreover from assms(3) have "2 * fh \<le> 2 * (f + vh) + ov"
      by (simp add: f_def max_def)
    ultimately show ?thesis using True snap assms(1) by simp
  next
    case False
    then have "2 * fh \<le> 2 * (l + vh) + ov"
      by (simp add: f_def max_def split: if_splits)
    with False snap assms(1,2) show ?thesis by (simp add: l_def)
  qed
qed

text \<open>
  Claim C1, as amended. For \<open>0 \<le> overlap < viewportHeight\<close> the position loop returns,
  and the positions are not empty, start at 0 and are strictly increasing. The last
  position plus the viewport height reaches the page height up to half the overlap:
  \<open>fullHeight \<le> last + viewportHeight + overlap / 2\<close>. The snap to the bottom is
  skipped when it would move the last tile by at most \<open>overlap / 2\<close>, so a strip of at
  most that height can stay below the last tile.
\<close>

theorem plan_increasing_from_zero:
  fixes fullHeight viewportHeight overlap :: int
  assumes "0 \<le> overlap" and "overlap < viewportHeight"
  shows "\<exists>positions. scroll_positions fullHeight viewportHeight overlap = Some positions
           \<and> positions \<noteq> [] \<and> hd positions = 0 \<and> sorted_wrt (<) positions
           \<and> 2 * fullHeight \<le> 2 * (last positions + viewportHeight) + overlap"
proof -
  from scroll_positions_shape [OF assms, of fullHeight] obtain qs where
    plan: "scroll_positions fullHeight viewportHeight overlap =
             Some (snap_to_bottom viewportHeight overlap fullHeight (0 # qs))"
    and incr: "sorted_wrt (<) (0 # qs)"
    by blast
  from snap_to_bottom_plan [OF _ incr assms(1), of viewportHeight fullHeight] plan
  show ?thesis by simp
qed

theorem plan_increasing_from_zero_witness:
  "(0::int) \<le> 100 \<and> (100::int) < 1000
   \<and> (\<exists>positions. scroll_positions 2000 1000 100 = Some positions
         \<and> positions \<noteq> [] \<and> hd positions = 0 \<and> sorted_wrt (<) positions
         \<and> 2 * 2000 \<le> 2 * (last positions + 1000) + 100)"
  using plan_increasing_from_zero [of 100 1000 2000] by simp

text \<open>
  Claim C1 as stated fails: for a page of height 1040, a viewport of 1000 and an overlap
  of 100 the only position is 0 (the snap to 40 is suppressed, \<open>40 \<le> 0 + 50\<close>), and
  \<open>0 + 1000 < 1040\<close>.
\<close>

theorem plan_misses_bottom_counterexample:
  "(0::int) \<le> 100 \<and> (100::int) < 1000
   \<and> scroll_positions 1040 1000 100 = Some [0]
   \<and> \<not> (last [0::int] + 1000 \<ge> 1040)"
  by (simp add: scroll_positions_def collect_positions.simps snap_to_bottom_def)

text \<open>
  Claim C7. For \<open>0 \<le> overlap < viewportHeight\<close> and a page no taller than the viewport,
  the positions are exactly \<open>[0]\<close>.
\<close>

theorem plan_short_page:
  fixes fullHeight viewportHeight overlap :: int
  assumes "0 \<le> overlap" and "overlap < viewportHeight" and "fullHeight \<le> viewportHeight"
  shows "scroll_positions fullHeight viewportHeight overlap = Some [0]"
proof -
  from assms have "collect_positions viewportHeight overlap fullHeight [] 0 = Some [0]"
    by (subst collect_positions.simps) simp
  moreover from assms have "snap_to_bottom viewportHeight overlap fullHeight [0] = [0]"
    by (simp add: snap_to_bottom_cases)
  ultimately show ?thesis by (simp add: scroll_positions_def)
qed

theorem plan_short_page_witness:
  "(0::int) \<le> 100 \<and> (100::int) < 768 \<and> (500::int) \<le> 768
   \<and> scroll_positions 500 768 100 = Some [0]"
  using plan_short_page [of 100 768 500] by simp

text \<open>
  Claim C9. For \<open>0 \<le> overlap < viewportHeight \<le> fullHeight\<close>, every position of the
  plan is a tile inside the page: \<open>0 \<le> offset\<close> and \<open>offset + viewportHeight \<le> fullHeight\<close>.
\<close>

theorem plan_tiles_inside_page:
  fixes fullHeight viewportHeight overlap :: int
  assumes "0 \<le> overlap" and "overlap < viewportHeight" and "viewportHeight \<le> fullHeight"
  shows "\<exists>positions. scroll_positions fullHeight viewportHeight overlap = Some positions
           \<and> list_all (\<lambda>offset. 0 \<le> offset \<and> offset + viewportHeight \<le> fullHeight) positions"
proof -
  from scroll_positions_shape [OF assms(1,2), of fullHeight] obtain qs where
    plan: "scroll_positions fullHeight viewportHeight overlap =
             Some (snap_to_bottom viewportHeight overlap fullHeight (0 # qs))"
    and inside: "\<forall>q\<in>set qs. 0 < q \<and> q + viewportHeight \<le> fullHeight"
    by blast
  from inside assms(3)
  have "list_all (\<lambda>offset. 0 \<le> offset \<and> offset + viewportHeight \<le> fullHeight) (0 # qs)"
    by (auto simp: list_all_iff)
  with assms(3)
  have "list_all (\<lambda>offset. 0 \<le> offset \<and> offset + viewportHeight \<le> fullHeight)
          (snap_to_bottom viewportHeight overlap fullHeight (0 # qs))"
    by (simp add: snap_to_bottom_cases)
  with plan show ?thesis by simp
qed

theorem plan_tiles_inside_page_witness:
  "(0::int) \<le> 100 \<and> (100::int) < 768 \<and> (768::int) \<le> 2000
   \<and> (\<exists>positions. scroll_positions 2000 768 100 = Some positions
         \<and> list_all (\<lambda>offset. 0 \<le> offset \<and> offset + 768 \<le> 2000) positions)"
  using plan_tiles_inside_page [of 100 768 2000] by simp

text \<open>
  Claim C4, as amended. For \<open>viewportHeight = 768\<close>, \<open>overlap = 100\<close>, \<open>fullHeight = 2000\<close>
  the loop appends 0 and 668 and stops before 1336 (\<open>1336 + 768 > 2000\<close>); the snap
  candidate is 1232, and \<open>1232 > 668 + 50\<close>, so it is appended: the positions are
  \<open>[0, 668, 1232]\<close>.
\<close>

theorem plan_example_768:
  "collect_positions 768 100 2000 [] 0 = Some [0, 668]
   \<and> 1336 + 768 > (2000::int)
   \<and> max 0 (2000 - 768) = (1232::int)
   \<and> (of_int 1232 :: rat) > of_int 668 + of_int 100 / 2
   \<and> scroll_positions 2000 768 100 = Some [0, 668, 1232]"
  by (simp add: scroll_positions_def collect_positions.simps snap_to_bottom_def)

text \<open>
  Claim C4 as stated fails: for \<open>viewportHeight = 768\<close>, \<open>overlap = 100\<close>,
  \<open>fullHeight = 2000\<close> the positions are not \<open>[0, 668, 1336]\<close>.
\<close>

theorem plan_example_768_counterexample:
  "scroll_positions 2000 768 100 \<noteq> Some [0, 668, 1336]"
  by (simp add: scroll_positions_def collect_positions.simps snap_to_bottom_def)

section \<open>Properties of the fixed-to-absolute conversion\<close>

lemma computed_position_relayout:
  "computed_position (Element st sh (f rect) cs') = computed_position (Element st sh rect cs)"
  by (simp add: computed_position_def split: option.splits)

lemma computed_positions_relayout:
  "computed_positions (relayout f e) = computed_positions e"
proof (induction e)
  case (Element st sh rect cs)
  then have "map (computed_positions \<circ> relayout f) cs = map computed_positions cs"
    by simp
  moreover have "computed_position (Element st sh (f rect) (map (relayout f) cs)) =
                 computed_position (Element st sh rect cs)"
    by (rule computed_position_relayout)
  ultimately show ?case by (simp only: relayout.simps computed_positions.simps map_map)
qed

lemma converted_not_fixed:
  "convertible e \<Longrightarrow>
   list_all (\<lambda>p. p \<noteq> Fixed) (computed_positions (convertToAbsolute w e))"
proof (induction e)
  case (Element st sh rect cs)
  from Element.prems have here: "\<not> fixed_important sh"
    and below: "\<forall>c\<in>set cs. convertible c"
    by (auto simp: convertible_def list_all_iff)
  from below Element.IH have "list_all (\<lambda>p. p \<noteq> Fixed)
               (concat (map (computed_positions \<circ> convertToAbsolute w) cs))"
    by (auto simp: list_all_iff)
  moreover from here have "computed_position
      (Element
        (if computed_position (Element st sh rect cs) = Fixed
         then st\<lparr>style_position := Some Absolute,
                 style_position_important := False,
                 style_top := Some (Px (rect_top rect + scrollTop w)),
                 style_left := Some (Px (rect_left rect)),
                 style_bottom := Some Auto,
                 style_right := Some Auto\<rparr>
         else st)
        sh rect (map (convertToAbsolute w) cs)) \<noteq> Fixed"
    by (auto simp: computed_position_def fixed_important_def split: option.splits if_splits)
  ultimately show ?case by simp
qed

lemma convertToAbsolute_skips:
  "list_all (\<lambda>p. p \<noteq> Fixed) (computed_positions e) \<Longrightarrow> convertToAbsolute w e = e"
proof (induction e)
  case (Element st sh rect cs)
  from Element.prems have here: "computed_position (Element st sh rect cs) \<noteq> Fixed"
    and below: "\<forall>c\<in>set cs. list_all (\<lambda>p. p \<noteq> Fixed) (computed_positions c)"
    by (auto simp: list_all_iff)
  from below Element.IH have "map (convertToAbsolute w) cs = cs"
    by (simp add: map_idI)
  with here show ?case by simp
qed

text \<open>
  Claim C8, as amended. On a tree in which no style sheet holds an element at
  \<open>position: fixed\<close> with an \<open>!important\<close> declaration, the conversion is idempotent.
  After a run no element has the computed position \<open>fixed\<close>, so a second run, under
  any scroll offset \<open>w2\<close>, changes nothing: neither on the tree as the first run left it,
  nor when the browser has laid the page out again in between and reports other
  rectangles.
\<close>

theorem convertToAbsolute_idempotent:
  assumes "convertible e"
  shows "list_all (\<lambda>p. p \<noteq> Fixed) (computed_positions (convertToAbsolute w1 e))
   \<and> convertToAbsolute w2 (convertToAbsolute w1 e) = convertToAbsolute w1 e
   \<and> convertToAbsolute w2 (relayout f (convertToAbsolute w1 e)) = relayout f (convertToAbsolute w1 e)"
  using assms
  by (simp add: converted_not_fixed convertToAbsolute_skips computed_positions_relayout)

text \<open>The banner of the spec is converted at scroll offset 0 to \<open>top = 0\<close>; a second run
  after scrolling by 500, when every rectangle has moved up by 500, leaves \<open>top = 0\<close>.\<close>

theorem convertToAbsolute_idempotent_witness:
  "convertible banner_page
   \<and> convertToAbsolute (scrolled_to 0) banner_page =
       Element unstyled \<lparr>sheet_position = Static, sheet_important = False\<rparr>
         \<lparr>rect_top = 0, rect_left = 0\<rparr>
         [Element (converted_to 0 0) \<lparr>sheet_position = Fixed, sheet_important = False\<rparr>
            \<lparr>rect_top = 0, rect_left = 0\<rparr> []]
   \<and> convertToAbsolute (scrolled_to 500)
       (relayout (\<lambda>r. r\<lparr>rect_top := rect_top r - 500\<rparr>)
          (convertToAbsolute (scrolled_to 0) banner_page)) =
       Element unstyled \<lparr>sheet_position = Static, sheet_important = False\<rparr>
         \<lparr>rect_top = - 500, rect_left = 0\<rparr>
         [Element (converted_to 0 0) \<lparr>sheet_position = Fixed, sheet_important = False\<rparr>
            \<lparr>rect_top = - 500, rect_left = 0\<rparr> []]"
proof -
  have page: "convertible banner_page"
    by (simp add: convertible_def banner_page_def fixed_important_def)
  have first: "convertToAbsolute (scrolled_to 0) banner_page =
       Element unstyled \<lparr>sheet_position = Static, sheet_important = False\<rparr>
         \<lparr>rect_top = 0, rect_left = 0\<rparr>
         [Element (converted_to 0 0) \<lparr>sheet_position = Fixed, sheet_important = False\<rparr>
            \<lparr>rect_top = 0, rect_left = 0\<rparr> []]"
    by (simp add: banner_page_def computed_position_def scrollTop_def scrolled_to_def
          unstyled_def converted_to_def)
  from convertToAbsolute_idempotent [OF page, of "scrolled_to 0" "scrolled_to 500"
      "\<lambda>r. r\<lparr>rect_top := rect_top r - 500\<rparr>"]
  have "convertToAbsolute (scrolled_to 500)
          (relayout (\<lambda>r. r\<lparr>rect_top := rect_top r - 500\<rparr>)
             (convertToAbsolute (scrolled_to 0) banner_page)) =
        relayout (\<lambda>r. r\<lparr>rect_top := rect_top r - 500\<rparr>)
          (convertToAbsolute (scrolled_to 0) banner_page)"
    by simp
  with page first show ?thesis by simp
qed

text \<open>
  Claim C8 as stated fails: it holds of no tree in which a style sheet declares
  \<open>position: fixed !important\<close>. The inline \<open>position: absolute\<close> that the first run
  writes has normal priority and loses against that declaration, the banner stays
  fixed at the top of the viewport, and a second run after scrolling by 500 moves its
  \<open>top\<close> from 0 to 500.
\<close>

theorem convertToAbsolute_pinned_counterexample:
  "convertToAbsolute (scrolled_to 0) pinned_banner_page =
       Element unstyled \<lparr>sheet_position = Static, sheet_important = False\<rparr>
         \<lparr>rect_top = 0, rect_left = 0\<rparr>
         [Element (converted_to 0 0) \<lparr>sheet_position = Fixed, sheet_important = True\<rparr>
            \<lparr>rect_top = 0, rect_left = 0\<rparr> []]
   \<and> convertToAbsolute (scrolled_to 500) (convertToAbsolute (scrolled_to 0) pinned_banner_page) =
       Element unstyled \<lparr>sheet_position = Static, sheet_important = False\<rparr>
         \<lparr>rect_top = 0, rect_left = 0\<rparr>
         [Element (converted_to 500 0) \<lparr>sheet_position = Fixed, sheet_important = True\<rparr>
            \<lparr>rect_top = 0, rect_left = 0\<rparr> []]
   \<and> convertToAbsolute (scrolled_to 500) (convertToAbsolute (scrolled_to 0) pinned_banner_page) \<noteq>
       convertToAbsolute (scrolled_to 0) pinned_banner_page"
  by (simp add: pinned_banner_page_def computed_position_def scrollTop_def scrolled_to_def
        unstyled_def converted_to_def)

section \<open>Properties of the stitching\<close>

lemma paint_dims: "width (paint c operation) = width c \<and> height (paint c operation) = height c"
  by (simp add: paint_def)

lemma pixel_paint:
  "pixel (paint c operation) x y =
     (if 0 \<le> x \<and> x < width c \<and> 0 \<le> y \<and> y < height c \<and> covers operation x y
      then pixel (input operation) (x - op_left operation) (y - op_top operation)
      else pixel c x y)"
  by (simp add: paint_def)

lemma sharp_create_canvas:
  "width (sharp_create c) = create_width c" "height (sharp_create c) = create_height c"
  "pixel (sharp_create c) x y = background c"
  by (simp_all add: sharp_create_def)

lemma foldl_paint_dims:
  "width (foldl paint c ops) = width c \<and> height (foldl paint c ops) = height c"
  by (induction ops arbitrary: c) (simp_all add: paint_dims)

lemma pixel_foldl_paint_outside:
  assumes "\<not> (0 \<le> x \<and> x < width c \<and> 0 \<le> y \<and> y < height c)"
  shows "pixel (foldl paint c ops) x y = pixel c x y"
proof (induction ops rule: rev_induct)
  case Nil
  show ?case by simp
next
  case (snoc a xs)
  from assms have "\<not> (0 \<le> x \<and> x < width (foldl paint c xs) \<and> 0 \<le> y
      \<and> y < height (foldl paint c xs) \<and> covers a x y)"
    by (auto simp: foldl_paint_dims)
  then have "pixel (paint (foldl paint c xs) a) x y = pixel (foldl paint c xs) x y"
    by (simp only: pixel_paint if_False)
  with snoc show ?case by simp
qed

lemma pixel_foldl_paint_find:
  assumes "0 \<le> x" and "x < width c" and "0 \<le> y" and "y < height c"
  shows "pixel (foldl paint c ops) x y =
           (case find (\<lambda>operation. covers operation x y) (rev ops) of
              None \<Rightarrow> pixel c x y
            | Some operation \<Rightarrow>
                pixel (input operation) (x - op_left operation) (y - op_top operation))"
proof (induction ops rule: rev_induct)
  case Nil
  show ?case by simp
next
  case (snoc a xs)
  with assms show ?case by (simp add: pixel_paint foldl_paint_dims)
qed

lemma find_compositeOperations:
  "find (\<lambda>operation. covers operation x y) (map
      (\<lambda>shot. \<lparr>input = shot_image shot, op_top = shot_position shot, op_left = 0\<rparr>) shots) =
   map_option (\<lambda>shot. \<lparr>input = shot_image shot, op_top = shot_position shot, op_left = 0\<rparr>)
     (find (\<lambda>shot. tile_covers shot x y) shots)"
  by (induction shots) (simp_all add: covers_def tile_covers_def)

lemma pixel_stitchScreenshots:
  fixes viewportWidth viewportHeight fullHeight :: int
  shows "pixel (stitchScreenshots screenshots fullHeight viewportWidth viewportHeight) x y =
     (if 0 \<le> x \<and> x < viewportWidth \<and> 0 \<le> y \<and> y < fullHeight
      then case top_tile screenshots x y of
             None \<Rightarrow> opaque_white
           | Some shot \<Rightarrow> pixel (shot_image shot) x (y - shot_position shot)
      else opaque_white)"
proof -
  define canvas where "canvas = sharp_create \<lparr>create_width = viewportWidth,
    create_height = fullHeight, channels = 4,
    background = \<lparr>red = 255, green = 255, blue = 255, alpha = 1\<rparr>\<rparr>"
  have stitched: "stitchScreenshots screenshots fullHeight viewportWidth viewportHeight =
                    foldl paint canvas (compositeOperations screenshots)"
    by (simp add: stitchScreenshots_def sharp_composite_def canvas_def)
  have canvas: "width canvas = viewportWidth" "height canvas = fullHeight"
    "pixel canvas x y = opaque_white"
    by (simp_all add: canvas_def sharp_create_canvas opaque_white_def)
  show ?thesis
  proof (cases "0 \<le> x \<and> x < viewportWidth \<and> 0 \<le> y \<and> y < fullHeight")
    case True
    then have "pixel (foldl paint canvas (compositeOperations screenshots)) x y =
        (case find (\<lambda>operation. covers operation x y) (rev (compositeOperations screenshots)) of
           None \<Rightarrow> pixel canvas x y
         | Some operation \<Rightarrow>
             pixel (input operation) (x - op_left operation) (y - op_top operation))"
      by (intro pixel_foldl_paint_find) (simp_all add: canvas)
    with True show ?thesis
      by (simp add: stitched canvas compositeOperations_def rev_map find_compositeOperations
            top_tile_def split: option.splits)
  next
    case False
    then have "pixel (foldl paint canvas (compositeOperations screenshots)) x y = pixel canvas x y"
      by (intro pixel_foldl_paint_outside) (simp add: canvas)
    with False show ?thesis by (auto simp: stitched canvas)
  qed
qed

lemma top_tile_last:
  assumes "j < length screenshots" and "tile_covers (screenshots ! j) x y"
    and "\<forall>k. j < k \<and> k < length screenshots \<longrightarrow> \<not> tile_covers (screenshots ! k) x y"
  shows "top_tile screenshots x y = Some (screenshots ! j)"
  using assms
proof (induction screenshots rule: rev_induct)
  case Nil
  then show ?case by simp
next
  case (snoc a xs)
  show ?case
  proof (cases "j = length xs")
    case True
    with snoc.prems(2) show ?thesis by (simp add: top_tile_def)
  next
    case False
    with snoc.prems(1) have j: "j < length xs" by simp
    from snoc.prems(3) have "j < length xs \<and> length xs < length (xs @ [a])
        \<longrightarrow> \<not> tile_covers ((xs @ [a]) ! length xs) x y"
      by (rule spec)
    with j have a: "\<not> tile_covers a x y" by simp
    from j snoc.prems(2) have cj: "tile_covers (xs ! j) x y" by (simp add: nth_append)
    have "\<forall>k. j < k \<and> k < length xs \<longrightarrow> \<not> tile_covers (xs ! k) x y"
    proof (intro allI impI)
      fix k assume k: "j < k \<and> k < length xs"
      from snoc.prems(3) have "j < k \<and> k < length (xs @ [a])
          \<longrightarrow> \<not> tile_covers ((xs @ [a]) ! k) x y"
        by (rule spec)
      with k show "\<not> tile_covers (xs ! k) x y" by (simp add: nth_append)
    qed
    from snoc.IH [OF j cj this] a j show ?thesis by (simp add: top_tile_def nth_append)
  qed
qed

text \<open>
  Claim C5. The stitched image is the raster \<open>viewportWidth\<close> wide and \<open>fullHeight\<close> high
  that shows, at every point of the canvas, the pixel of the last screenshot (in the
  order of the list) whose tile, placed at \<open>left = 0\<close> and \<open>top\<close> its scroll position,
  covers the point, and opaque white where no tile does. So at a point covered by two
  tiles \<open>i < j\<close>, and by no tile after \<open>j\<close>, it shows the pixel of the later tile \<open>j\<close>.
\<close>

theorem stitchScreenshots_canvas:
  fixes viewportWidth viewportHeight fullHeight :: int
  shows
    "stitchScreenshots screenshots fullHeight viewportWidth viewportHeight =
       \<lparr>width = viewportWidth, height = fullHeight,
        pixel = (\<lambda>x y.
          if 0 \<le> x \<and> x < viewportWidth \<and> 0 \<le> y \<and> y < fullHeight
          then case top_tile screenshots x y of
                 None \<Rightarrow> opaque_white
               | Some shot \<Rightarrow> pixel (shot_image shot) x (y - shot_position shot)
          else opaque_white)\<rparr>
     \<and> (0 \<le> x \<and> x < viewportWidth \<and> 0 \<le> y \<and> y < fullHeight
        \<and> i < j \<and> j < length screenshots
        \<and> tile_covers (screenshots ! i) x y \<and> tile_covers (screenshots ! j) x y
        \<and> (\<forall>k. j < k \<and> k < length screenshots \<longrightarrow> \<not> tile_covers (screenshots ! k) x y) \<longrightarrow>
        pixel (stitchScreenshots screenshots fullHeight viewportWidth viewportHeight) x y =
          pixel (shot_image (screenshots ! j)) x (y - shot_position (screenshots ! j)))"
proof -
  let ?stitched = "stitchScreenshots screenshots fullHeight viewportWidth viewportHeight"
  have "width ?stitched = viewportWidth" "height ?stitched = fullHeight"
    by (simp_all add: stitchScreenshots_def sharp_composite_def foldl_paint_dims
          sharp_create_canvas)
  moreover have "pixel ?stitched = (\<lambda>x y.
          if 0 \<le> x \<and> x < viewportWidth \<and> 0 \<le> y \<and> y < fullHeight
          then case top_tile screenshots x y of
                 None \<Rightarrow> opaque_white
               | Some shot \<Rightarrow> pixel (shot_image shot) x (y - shot_position shot)
          else opaque_white)"
    by (intro ext) (rule pixel_stitchScreenshots)
  ultimately have raster: "?stitched =
       \<lparr>width = viewportWidth, height = fullHeight,
        pixel = (\<lambda>x y.
          if 0 \<le> x \<and> x < viewportWidth \<and> 0 \<le> y \<and> y < fullHeight
          then case top_tile screenshots x y of
                 None \<Rightarrow> opaque_white
               | Some shot \<Rightarrow> pixel (shot_image shot) x (y - shot_position shot)
          else opaque_white)\<rparr>"
    by (cases ?stitched) simp
  have "pixel ?stitched x y =
          pixel (shot_image (screenshots ! j)) x (y - shot_position (screenshots ! j))"
    if "0 \<le> x" "x < viewportWidth" "0 \<le> y" "y < fullHeight"
      "j < length screenshots" "tile_covers (screenshots ! j) x y"
      "\<forall>k. j < k \<and> k < length screenshots \<longrightarrow> \<not> tile_covers (screenshots ! k) x y"
    using that by (simp add: pixel_stitchScreenshots top_tile_last)
  with raster show ?thesis by blast
qed

text \<open>Two tiles 4 wide and 10 high at 0 and 8 on a canvas 20 high: the first tile alone
  at row 3, both tiles at row 9, no tile at row 19.\<close>

theorem stitchScreenshots_canvas_witness:
  "(0::int) \<le> 1 \<and> (1::int) < 4 \<and> (0::int) \<le> 9 \<and> (9::int) < 20
   \<and> (0::nat) < 1 \<and> 1 < length two_tiles
   \<and> tile_covers (two_tiles ! 0) 1 9 \<and> tile_covers (two_tiles ! 1) 1 9
   \<and> width (stitchScreenshots two_tiles 20 4 10) = 4
   \<and> height (stitchScreenshots two_tiles 20 4 10) = 20
   \<and> pixel (stitchScreenshots two_tiles 20 4 10) 1 3 = \<lparr>red = 1, green = 1, blue = 1, alpha = 1\<rparr>
   \<and> pixel (stitchScreenshots two_tiles 20 4 10) 1 9 = \<lparr>red = 2, green = 2, blue = 2, alpha = 1\<rparr>
   \<and> pixel (stitchScreenshots two_tiles 20 4 10) 1 19 = opaque_white"
proof -
  note canvas = stitchScreenshots_canvas [of two_tiles 20 4 10 1 9 0 1]
  have tiles: "length two_tiles = 2"
    "tile_covers (two_tiles ! 0) 1 9" "tile_covers (two_tiles ! 1) 1 9"
    by (simp_all add: two_tiles_def tile_covers_def plain_def)
  have pixels: "pixel (shot_image (two_tiles ! 0)) 1 3 = \<lparr>red = 1, green = 1, blue = 1, alpha = 1\<rparr>"
    "pixel (shot_image (two_tiles ! 1)) 1 (9 - shot_position (two_tiles ! 1)) =
       \<lparr>red = 2, green = 2, blue = 2, alpha = 1\<rparr>"
    "shot_position (two_tiles ! 0) = 0"
    by (simp_all add: two_tiles_def plain_def)
  have top: "top_tile two_tiles 1 3 = Some (two_tiles ! 0)" "top_tile two_tiles 1 19 = None"
    by (simp_all add: top_tile_def two_tiles_def tile_covers_def plain_def)
  have later: "pixel (stitchScreenshots two_tiles 20 4 10) 1 9 =
          pixel (shot_image (two_tiles ! 1)) 1 (9 - shot_position (two_tiles ! 1))"
    apply (rule canvas [THEN conjunct2, THEN mp])
    using tiles apply auto
    done
  have dims: "width (stitchScreenshots two_tiles 20 4 10) = 4"
    "height (stitchScreenshots two_tiles 20 4 10) = 20"
    by (simp_all add: canvas [THEN conjunct1])
  have alone: "pixel (stitchScreenshots two_tiles 20 4 10) 1 3 =
      pixel (shot_image (two_tiles ! 0)) 1 3"
    by (simp add: canvas [THEN conjunct1] top pixels(3))
  have none: "pixel (stitchScreenshots two_tiles 20 4 10) 1 19 = opaque_white"
    by (simp add: canvas [THEN conjunct1] top)
  from tiles dims later alone none pixels show ?thesis by simp
qed

section \<open>Properties of the capture run\<close>

lemmas io_defs = bind_io_def return_io_def throw_io_def try_catch_def
  try_finally_def catch_console_error_def perform_def evaluate_fullHeight_def
  page_screenshot_def

lemmas run_defs = captureFullPageScreenshot_def capture_pipeline_def close_browser_def
  navigate_and_process_def launch_def processPage_def stitch_io_def takeScreenshotsOfPage_def

lemma page_only_return: "page_only (return_io v)"
  by (simp add: page_only_def return_io_def)

lemma page_only_throw: "page_only (throw_io e)"
  by (simp add: page_only_def throw_io_def)

lemma page_only_perform: "page_call c \<Longrightarrow> page_only (perform w c)"
  by (auto simp: page_only_def perform_def Let_def)

lemma page_only_bind:
  assumes "page_only m" and "\<And>v. page_only (f v)"
  shows "page_only (bind_io m f)"
  unfolding page_only_def
proof (intro allI impI)
  fix s r s' assume run: "bind_io m f s = (r, s')"
  obtain r1 s1 where m: "m s = (r1, s1)" by (cases "m s")
  with assms(1) obtain cs1 where s1: "calls s1 = calls s @ cs1" "list_all page_call cs1"
    "browser s1 = browser s"
    unfolding page_only_def by blast
  show "(\<exists>cs. calls s' = calls s @ cs \<and> list_all page_call cs) \<and> browser s' = browser s"
  proof (cases r1)
    case (Return v)
    with run m have "f v s1 = (r, s')" by (simp add: bind_io_def)
    with assms(2) [of v] obtain cs2 where "calls s' = calls s1 @ cs2" "list_all page_call cs2"
      "browser s' = browser s1"
      unfolding page_only_def by blast
    with s1 show ?thesis by simp
  next
    case (Throw e)
    with run m s1 show ?thesis by (auto simp: bind_io_def)
  qed
qed

lemma page_only_evaluate_fullHeight: "page_only (evaluate_fullHeight w)"
  by (auto simp: page_only_def evaluate_fullHeight_def bind_io_def return_io_def perform_def Let_def)

lemma page_only_page_screenshot: "page_only (page_screenshot w)"
  by (auto simp: page_only_def page_screenshot_def bind_io_def return_io_def perform_def Let_def)

lemma page_only_capture_tiles: "page_only (capture_tiles w positions counter screenshots)"
  by (induction positions arbitrary: counter screenshots)
     (simp_all add: page_only_return page_only_bind page_only_perform page_only_page_screenshot)

lemma page_only_takeScreenshotsOfPage: "page_only (takeScreenshotsOfPage w vh ov)"
  unfolding takeScreenshotsOfPage_def
  by (intro page_only_bind page_only_perform page_only_evaluate_fullHeight)
     (simp_all add: page_only_throw page_only_bind page_only_capture_tiles page_only_return
        split: option.splits)

lemma page_only_processPage: "page_only (processPage w opts)"
  unfolding processPage_def stitch_io_def
  by (intro page_only_bind page_only_perform page_only_takeScreenshotsOfPage)
     (simp_all add: page_only_bind page_only_perform page_only_return split: prod.splits)

lemma count_list_page_calls:
  "list_all page_call cs \<Longrightarrow> \<not> page_call c \<Longrightarrow> count_list cs c = 0"
  by (induction cs) auto

lemma pipeline_after_first_goto:
  assumes "urlValid w url" and "\<not> rejects w Launch 0" and "\<not> rejects w NewPage 0"
    and "rejects w (Goto url) 0"
  shows "capture_pipeline w url opts initial =
           (if proxy_configured opts
            then bind_io (perform w (Authenticate (proxyUsername opts) (proxyPassword opts))) (\<lambda>_.
                 bind_io (perform w (Goto url)) (\<lambda>_. processPage w opts))
                   \<lparr>calls = [Launch, NewPage, Goto url], browser = True\<rparr>
            else (Throw (Rejection (Goto url) 0),
                  \<lparr>calls = [Launch, NewPage, Goto url], browser = True\<rparr>))"
  using assms
  by (simp add: capture_pipeline_def launch_def navigate_and_process_def proxy_configured_def
        initial_def bind_io_def perform_def try_catch_def throw_io_def)

lemma finally_closes:
  assumes "capture_pipeline w url opts s = (r, s')" and "browser s'"
  shows "captureFullPageScreenshot w url opts s = (r, s'\<lparr>calls := calls s' @ [Close]\<rparr>)"
  using assms
  by (cases r)
     (simp_all add: captureFullPageScreenshot_def try_finally_def close_browser_def
        catch_console_error_def perform_def Let_def)

text \<open>
  Claim C6. In a run whose first navigation rejects: without proxy credentials the
  rejection surfaces at once (one \<open>Goto\<close>, no \<open>Authenticate\<close>); with them the run
  authenticates once and, if that resolves, navigates once more. If the second
  navigation rejects too, its rejection surfaces and no further call but \<open>Close\<close> is
  made; if it resolves, the rest of the run makes no \<open>Goto\<close> and no \<open>Authenticate\<close>.
\<close>

theorem navigation_retried_once:
  assumes "urlValid w url" and "\<not> rejects w Launch 0" and "\<not> rejects w NewPage 0"
    and "rejects w (Goto url) 0"
  shows
    "(\<not> proxy_configured opts \<longrightarrow>
        captureFullPageScreenshot w url opts initial =
          (Throw (Rejection (Goto url) 0),
           \<lparr>calls = [Launch, NewPage, Goto url, Close], browser = True\<rparr>))
     \<and> (proxy_configured opts
          \<and> rejects w (Authenticate (proxyUsername opts) (proxyPassword opts)) 0 \<longrightarrow>
        captureFullPageScreenshot w url opts initial =
          (Throw (Rejection (Authenticate (proxyUsername opts) (proxyPassword opts)) 0),
           \<lparr>calls = [Launch, NewPage, Goto url,
                     Authenticate (proxyUsername opts) (proxyPassword opts), Close],
             browser = True\<rparr>))
     \<and> (proxy_configured opts
          \<and> \<not> rejects w (Authenticate (proxyUsername opts) (proxyPassword opts)) 0
          \<and> rejects w (Goto url) 1 \<longrightarrow>
        captureFullPageScreenshot w url opts initial =
          (Throw (Rejection (Goto url) 1),
           \<lparr>calls = [Launch, NewPage, Goto url,
                     Authenticate (proxyUsername opts) (proxyPassword opts), Goto url, Close],
             browser = True\<rparr>))
     \<and> (proxy_configured opts
          \<and> \<not> rejects w (Authenticate (proxyUsername opts) (proxyPassword opts)) 0
          \<and> \<not> rejects w (Goto url) 1 \<longrightarrow>
        (\<exists>cs. calls (snd (captureFullPageScreenshot w url opts initial)) =
                [Launch, NewPage, Goto url,
                 Authenticate (proxyUsername opts) (proxyPassword opts), Goto url] @ cs
              \<and> count_list cs (Goto url) = 0
              \<and> count_list cs (Authenticate (proxyUsername opts) (proxyPassword opts)) = 0))"
proof -
  let ?auth = "Authenticate (proxyUsername opts) (proxyPassword opts)"
  let ?s3 = "\<lparr>calls = [Launch, NewPage, Goto url], browser = True\<rparr>"
  note pipeline = pipeline_after_first_goto [OF assms, of opts]
  have no_proxy: ?thesis if "\<not> proxy_configured opts"
  proof -
    from that pipeline have "capture_pipeline w url opts initial =
        (Throw (Rejection (Goto url) 0), ?s3)" by simp
    from finally_closes [OF this] that show ?thesis by simp
  qed
  have auth_fails: ?thesis if "proxy_configured opts" "rejects w ?auth 0"
  proof -
    from that pipeline have "capture_pipeline w url opts initial =
        (Throw (Rejection ?auth 0), \<lparr>calls = [Launch, NewPage, Goto url, ?auth], browser = True\<rparr>)"
      by (simp add: bind_io_def perform_def)
    from finally_closes [OF this] that show ?thesis by simp
  qed
  have second_fails: ?thesis
    if "proxy_configured opts" "\<not> rejects w ?auth 0" "rejects w (Goto url) 1"
  proof -
    from that pipeline have "capture_pipeline w url opts initial =
        (Throw (Rejection (Goto url) 1),
         \<lparr>calls = [Launch, NewPage, Goto url, ?auth, Goto url], browser = True\<rparr>)"
      by (simp add: bind_io_def perform_def)
    from finally_closes [OF this] that show ?thesis by simp
  qed
  have second_loads: ?thesis
    if "proxy_configured opts" "\<not> rejects w ?auth 0" "\<not> rejects w (Goto url) 1"
  proof -
    let ?s5 = "\<lparr>calls = [Launch, NewPage, Goto url, ?auth, Goto url], browser = True\<rparr>"
    obtain r s' where process: "processPage w opts ?s5 = (r, s')"
      by (cases "processPage w opts ?s5")
    with page_only_processPage [of w opts] obtain cs where
      cs: "calls s' = calls ?s5 @ cs" "list_all page_call cs" "browser s' = browser ?s5"
      unfolding page_only_def by blast
    from that pipeline process have run: "capture_pipeline w url opts initial = (r, s')"
      by (simp add: bind_io_def perform_def)
    have page: "count_list cs (Goto url) = 0" "count_list cs ?auth = 0"
      using cs(2) by (simp_all add: count_list_page_calls)
    have "\<exists>cs'. calls (snd (captureFullPageScreenshot w url opts initial)) =
            [Launch, NewPage, Goto url, ?auth, Goto url] @ cs'
          \<and> count_list cs' (Goto url) = 0 \<and> count_list cs' ?auth = 0"
    proof -
      from cs(3) have "browser s'" by simp
      from finally_closes [OF run this] cs(1) page show ?thesis by simp
    qed
    with that show ?thesis by simp
  qed
  from no_proxy auth_fails second_fails second_loads show ?thesis by blast
qed

theorem navigation_retried_once_witness:
  "urlValid unreachable_site example_url \<and> \<not> rejects unreachable_site Launch 0
   \<and> \<not> rejects unreachable_site NewPage 0 \<and> rejects unreachable_site (Goto example_url) 0
   \<and> \<not> proxy_configured default_options
   \<and> captureFullPageScreenshot unreachable_site example_url default_options initial =
        (Throw (Rejection (Goto example_url) 0),
         \<lparr>calls = [Launch, NewPage, Goto example_url, Close], browser = True\<rparr>)
   \<and> proxy_configured proxy_options
   \<and> \<not> rejects unreachable_site (Authenticate (Some ''user'') (Some ''key'')) 0
   \<and> rejects unreachable_site (Goto example_url) 1
   \<and> captureFullPageScreenshot unreachable_site example_url proxy_options initial =
        (Throw (Rejection (Goto example_url) 1),
         \<lparr>calls = [Launch, NewPage, Goto example_url,
                   Authenticate (Some ''user'') (Some ''key''), Goto example_url, Close],
           browser = True\<rparr>)
   \<and> urlValid flaky_site example_url \<and> \<not> rejects flaky_site Launch 0
   \<and> \<not> rejects flaky_site NewPage 0 \<and> rejects flaky_site (Goto example_url) 0
   \<and> \<not> rejects flaky_site (Authenticate (Some ''user'') (Some ''key'')) 0
   \<and> \<not> rejects flaky_site (Goto example_url) 1
   \<and> (\<exists>cs. calls (snd (captureFullPageScreenshot flaky_site example_url proxy_options initial)) =
             [Launch, NewPage, Goto example_url,
              Authenticate (Some ''user'') (Some ''key''), Goto example_url] @ cs
           \<and> count_list cs (Goto example_url) = 0
           \<and> count_list cs (Authenticate (Some ''user'') (Some ''key'')) = 0)"
  using navigation_retried_once [of unreachable_site example_url default_options]
    navigation_retried_once [of unreachable_site example_url proxy_options]
    navigation_retried_once [of flaky_site example_url proxy_options]
  by (simp add: unreachable_site_def flaky_site_def example_url_def proxy_options_def
        default_options_def proxy_configured_def truthy_def)

text \<open>
  Claim C10. The outcome of captureFullPageScreenshot is the outcome of the body of its
  \<open>try\<close>, from every state and in every world, whether or not closing the browser
  rejects.
\<close>

theorem close_failure_swallowed:
  "fst (captureFullPageScreenshot w url opts s) = fst (capture_pipeline w url opts s)"
  by (simp add: captureFullPageScreenshot_def try_finally_def close_browser_def
        catch_console_error_def perform_def return_io_def Let_def
      split: prod.splits outcome.splits)

theorem close_failure_swallowed_witness:
  "rejects close_fails Close 0
   \<and> fst (captureFullPageScreenshot close_fails example_url default_options initial) =
       Return (stitchScreenshots
                 [\<lparr>shot_image = viewportShot close_fails 0, shot_position = 0\<rparr>] 768 1366 768)"
proof -
  have "scroll_positions 768 768 100 = Some [0]"
    by (simp add: scroll_positions_def collect_positions.simps snap_to_bottom_def)
  then have "fst (capture_pipeline close_fails example_url default_options initial) =
       Return (stitchScreenshots
                 [\<lparr>shot_image = viewportShot close_fails 0, shot_position = 0\<rparr>] 768 1366 768)"
    by (simp add: capture_pipeline_def navigate_and_process_def launch_def processPage_def
          stitch_io_def takeScreenshotsOfPage_def io_defs close_fails_def default_options_def
          initial_def)
  with close_failure_swallowed [of close_fails example_url default_options initial]
  show ?thesis by (simp add: close_fails_def)
qed











text \<open>
  Claim C3 fails on the code: the \<open>try\<close> block whose handler retries through the proxy
  also holds \<open>processPage\<close>. Here the first navigation resolves and the first screenshot
  rejects; with proxy credentials the run authenticates, navigates again, captures
  again and returns the stitched image: the rejection of the screenshot does not reach
  the caller.
\<close>

theorem capture_error_retried:
  "captureFullPageScreenshot first_screenshot_fails example_url proxy_options initial =
     (Return (stitchScreenshots
                [\<lparr>shot_image = viewportShot first_screenshot_fails 1, shot_position = 0\<rparr>]
                768 1366 768),
      \<lparr>calls = [Launch, NewPage, Goto example_url, WaitForTimeout 4000,
               EvaluateConvertFixed, EvaluateFullHeight, EvaluateScrollTo 0,
               WaitForTimeout 2000, Screenshot,
               Authenticate (Some ''user'') (Some ''key''), Goto example_url,
               WaitForTimeout 4000, EvaluateConvertFixed, EvaluateFullHeight,
               EvaluateScrollTo 0, WaitForTimeout 2000, Screenshot, SharpToBuffer, Close],
      browser = True\<rparr>)"
proof -
  have "scroll_positions 768 768 100 = Some [0]"
    by (simp add: scroll_positions_def collect_positions.simps snap_to_bottom_def)
  then show ?thesis
    by (simp add: run_defs io_defs first_screenshot_fails_def proxy_options_def
          default_options_def initial_def truthy_def)
qed

end
